theory Spec2Isabelle
  imports Main
begin

section \<open>The multi-step form hook\<close>

text \<open>
  A shallow embedding of \<^verbatim>\<open>src/hooks/useMultiStepForm.ts\<close>. The hook keeps one
  \<^verbatim>\<open>useState\<close> cell, \<^verbatim>\<open>currentStepIndex\<close>, and wraps the form engine returned
  by \<^verbatim>\<open>useForm\<close>. The engine is a library outside the repository: its state is the
  type parameter \<open>'e\<close> and its \<^verbatim>\<open>trigger\<close> function is a parameter of the model.

  Indices are JavaScript numbers, that is IEEE doubles. The model takes them as
  mathematical integers: every integer from \<open>-2^53\<close> to \<open>2^53\<close> is a double, and
  the hook's \<^verbatim>\<open>prevStep + 1\<close> and \<^verbatim>\<open>prevStep - 1\<close> are exact as long as argument
  and result stay there. Beyond, the double operation rounds and the integer one does
  not, so a statement about a result of that arithmetic carries the bound. Comparisons
  and results returned as they are need none. Every index of a step is far inside: an
  array has fewer than \<open>2^32\<close> elements.
\<close>

subsection \<open>Data\<close>

type_synonym path = string

text \<open>
  \<^verbatim>\<open>FormStep\<close>: the component to render and the field paths validated with it. The
  member \<^verbatim>\<open>fields\<close> is named \<open>step_fields\<close> here, \<open>fields\<close> being a constant of
  the record package.
\<close>

record 'c FormStep =
  component :: 'c
  step_fields :: "path list"

text \<open>
  Reading a property of \<^verbatim>\<open>undefined\<close> throws a \<^verbatim>\<open>TypeError\<close>; that is the only
  exception the hook's own code can raise.
\<close>

datatype error = TypeError

text \<open>
  \<^verbatim>\<open>steps[i]\<close>: indexing an array outside \<open>0 .. length - 1\<close> does not throw, it
  yields \<^verbatim>\<open>undefined\<close> (here \<open>None\<close>).
\<close>

definition at_index :: "'a list \<Rightarrow> int \<Rightarrow> 'a option" where
  "at_index xs i = (if 0 \<le> i \<and> i < int (length xs) then Some (xs ! nat i) else None)"

text \<open>
  What persists between two evaluations of the hook: the \<^verbatim>\<open>useState\<close> cell, the
  engine's state, and (as a trace of the effect) the arguments of every call of
  \<^verbatim>\<open>trigger\<close> made so far.
\<close>

record 'e hook_state =
  currentStepIndex :: int
  form :: 'e
  triggerCalls :: "path list list"

text \<open>
  \<^verbatim>\<open>trigger(fields)\<close> validates the given fields, updates the engine's error set and
  resolves to whether they are valid. The hook adds no handling around it, and a
  \<^verbatim>\<open>trigger\<close> that rejects or never resolves is not modelled.
\<close>

type_synonym 'e trigger = "path list \<Rightarrow> 'e \<Rightarrow> bool \<times> 'e"

text \<open>
  \<^verbatim>\<open>await trigger(fields)\<close>: the one place where the engine's \<^verbatim>\<open>trigger\<close> is
  applied. It is applied to the engine's current state, the engine's new state is
  stored, and the call's argument is added to the trace.
\<close>

definition invokeTrigger ::
  "'e trigger \<Rightarrow> path list \<Rightarrow> 'e hook_state \<Rightarrow> bool \<times> 'e hook_state" where
  "invokeTrigger trigger fs st =
     (let (isValid, form') = trigger fs (form st)
      in (isValid, st\<lparr>form := form', triggerCalls := triggerCalls st @ [fs]\<rparr>))"

text \<open>\<^verbatim>\<open>useState<number>(0)\<close>, with the engine as \<^verbatim>\<open>useForm\<close> created it.\<close>

definition initialState :: "'e \<Rightarrow> 'e hook_state" where
  "initialState f = \<lparr>currentStepIndex = 0, form = f, triggerCalls = []\<rparr>"

subsection \<open>Operations\<close>

text \<open>
  The setter of the \<^verbatim>\<open>useState\<close> cell is returned to the caller as it is. It takes
  either a value or a function of the previous value.
\<close>

datatype SetStateAction = Value int | Updater "int \<Rightarrow> int"

fun setCurrentStepIndex :: "SetStateAction \<Rightarrow> 'e hook_state \<Rightarrow> 'e hook_state" where
  "setCurrentStepIndex (Value v) st = st\<lparr>currentStepIndex := v\<rparr>"
| "setCurrentStepIndex (Updater f) st = st\<lparr>currentStepIndex := f (currentStepIndex st)\<rparr>"

text \<open>
  \<^verbatim>\<open>goToNextStep\<close> is a closure over \<^verbatim>\<open>steps\<close>, \<^verbatim>\<open>trigger\<close> and the value that
  \<^verbatim>\<open>currentStepIndex\<close> had in the evaluation of the hook that created it (the
  argument \<open>capturedIndex\<close>). It reads \<^verbatim>\<open>steps[currentStepIndex].fields\<close> with the
  captured value, awaits \<^verbatim>\<open>trigger\<close>, returns when the fields are not valid, and
  otherwise hands an updater to the setter, which applies it to the value the cell has
  then (\<^verbatim>\<open>prevStep\<close>).
\<close>

definition goToNextStep ::
  "'c FormStep list \<Rightarrow> 'e trigger \<Rightarrow> int \<Rightarrow> 'e hook_state \<Rightarrow> error + 'e hook_state" where
  "goToNextStep steps trigger capturedIndex st =
     (case at_index steps capturedIndex of
        None \<Rightarrow> Inl TypeError
      | Some step \<Rightarrow>
          (let (isValid, st') = invokeTrigger trigger (step_fields step) st
           in if \<not> isValid then Inr st'
              else Inr (setCurrentStepIndex
                          (Updater (\<lambda>prevStep.
                             if prevStep \<ge> int (length steps) - 1 then prevStep
                             else prevStep + 1))
                          st')))"

text \<open>
  \<^verbatim>\<open>goToPreviousStep\<close> closes over nothing and only hands an updater to the setter.
  As for \<^verbatim>\<open>prevStep + 1\<close> above, \<open>prevStep - 1\<close> is the source's subtraction
  between \<open>-2^53\<close> and \<open>2^53\<close>.
\<close>

definition goToPreviousStep :: "'e hook_state \<Rightarrow> 'e hook_state" where
  "goToPreviousStep st =
     setCurrentStepIndex
       (Updater (\<lambda>prevStep. if prevStep \<le> 0 then prevStep else prevStep - 1)) st"

subsection \<open>One evaluation of the hook\<close>

text \<open>
  The values the hook computes from the state and returns: \<^verbatim>\<open>CurrentStep\<close>,
  \<^verbatim>\<open>currentStepIndex\<close> (here \<open>stepIndex\<close>), \<^verbatim>\<open>isFirstStep\<close> and \<^verbatim>\<open>isLastStep\<close>.
  The other members of the returned object are the three functions above, with
  \<^verbatim>\<open>goToNextStep\<close> closed over this evaluation's index, that is
  \<open>goToNextStep steps trigger (stepIndex r)\<close>, and the engine's own
  \<^verbatim>\<open>handleSubmit\<close>, \<^verbatim>\<open>control\<close>, \<^verbatim>\<open>errors\<close> and \<^verbatim>\<open>register\<close>, passed through.
\<close>

record 'c hook_return =
  CurrentStep :: 'c
  stepIndex :: int
  isFirstStep :: bool
  isLastStep :: bool

text \<open>
  The body reads \<^verbatim>\<open>steps[currentStepIndex].component\<close> before it computes the two
  flags; when the index names no step that read throws and nothing is returned.
\<close>

definition useMultiStepForm :: "'c FormStep list \<Rightarrow> 'e hook_state \<Rightarrow> error + 'c hook_return" where
  "useMultiStepForm steps st =
     (case at_index steps (currentStepIndex st) of
        None \<Rightarrow> Inl TypeError
      | Some step \<Rightarrow>
          Inr \<lparr>CurrentStep = component step,
               stepIndex = currentStepIndex st,
               isFirstStep = (currentStepIndex st \<le> 0),
               isLastStep = (currentStepIndex st \<ge> int (length steps) - 1)\<rparr>)"

subsection \<open>Sequences of calls\<close>

text \<open>
  A caller that always uses the object returned by the latest evaluation of the hook:
  the hook is evaluated, and one member of the returned object is called.
\<close>

datatype call = GoToNextStep | GoToPreviousStep | SetCurrentStepIndex int

definition perform ::
  "'c FormStep list \<Rightarrow> 'e trigger \<Rightarrow> call \<Rightarrow> 'e hook_state \<Rightarrow> error + 'e hook_state" where
  "perform steps trigger c st =
     (case useMultiStepForm steps st of
        Inl e \<Rightarrow> Inl e
      | Inr r \<Rightarrow>
          (case c of
             GoToNextStep \<Rightarrow> goToNextStep steps trigger (stepIndex r) st
           | GoToPreviousStep \<Rightarrow> Inr (goToPreviousStep st)
           | SetCurrentStepIndex v \<Rightarrow> Inr (setCurrentStepIndex (Value v) st)))"

fun run ::
  "'c FormStep list \<Rightarrow> 'e trigger \<Rightarrow> call list \<Rightarrow> 'e hook_state \<Rightarrow> error + 'e hook_state" where
  "run steps trigger [] st = Inr st"
| "run steps trigger (c # cs) st =
     (case perform steps trigger c st of
        Inl e \<Rightarrow> Inl e
      | Inr st' \<Rightarrow> run steps trigger cs st')"

text \<open>
  Whether the validation run by a call of \<^verbatim>\<open>goToNextStep\<close> from the latest
  evaluation succeeds, and whether those of the next \<open>k\<close> such calls all do.
\<close>

definition validates :: "'c FormStep list \<Rightarrow> 'e trigger \<Rightarrow> 'e hook_state \<Rightarrow> bool" where
  "validates steps trigger st =
     (case at_index steps (currentStepIndex st) of
        None \<Rightarrow> False
      | Some step \<Rightarrow> fst (trigger (step_fields step) (form st)))"

fun allValidate :: "'c FormStep list \<Rightarrow> 'e trigger \<Rightarrow> nat \<Rightarrow> 'e hook_state \<Rightarrow> bool" where
  "allValidate steps trigger 0 st = True"
| "allValidate steps trigger (Suc k) st =
     (validates steps trigger st \<and>
      (case perform steps trigger GoToNextStep st of
         Inl e \<Rightarrow> False
       | Inr st' \<Rightarrow> allValidate steps trigger k st'))"




text \<open>The data model's invariant: the index names a step.\<close>

definition inRange :: "'c FormStep list \<Rightarrow> 'e hook_state \<Rightarrow> bool" where
  "inRange steps st = (0 \<le> currentStepIndex st \<and> currentStepIndex st < int (length steps))"

text \<open>The usage example of the README: a name step and an age step, and a third.\<close>

definition exampleSteps :: "string FormStep list" where
  "exampleSteps =
     [\<lparr>component = ''NameStep'', step_fields = [''name'']\<rparr>,
      \<lparr>component = ''AgeStep'', step_fields = [''age'']\<rparr>,
      \<lparr>component = ''EmailStep'', step_fields = [''email'']\<rparr>]"

text \<open>Two engines for the examples: one whose validation always passes, one whose never does.\<close>

definition alwaysValid :: "unit trigger" where
  "alwaysValid fs e = (True, e)"

definition neverValid :: "unit trigger" where
  "neverValid fs e = (False, e)"



section \<open>Basic facts\<close>

lemma goToNextStep_valid:
  assumes "at_index steps c = Some step" and "fst (trigger (step_fields step) (form st))"
  shows "goToNextStep steps trigger c st =
           Inr (st\<lparr>form := snd (trigger (step_fields step) (form st)),
                   triggerCalls := triggerCalls st @ [step_fields step],
                   currentStepIndex :=
                     (if currentStepIndex st \<ge> int (length steps) - 1 then currentStepIndex st
                      else currentStepIndex st + 1)\<rparr>)"
  using assms by (simp add: goToNextStep_def invokeTrigger_def split_beta Let_def)

lemma goToNextStep_invalid:
  assumes "at_index steps c = Some step" and "\<not> fst (trigger (step_fields step) (form st))"
  shows "goToNextStep steps trigger c st =
           Inr (st\<lparr>form := snd (trigger (step_fields step) (form st)),
                   triggerCalls := triggerCalls st @ [step_fields step]\<rparr>)"
  using assms by (simp add: goToNextStep_def invokeTrigger_def split_beta Let_def)

lemma goToNextStep_undefined:
  "at_index steps c = None \<Longrightarrow> goToNextStep steps trigger c st = Inl TypeError"
  by (simp add: goToNextStep_def invokeTrigger_def)

lemma goToPreviousStep_eq:
  "goToPreviousStep st =
     st\<lparr>currentStepIndex :=
          (if currentStepIndex st \<le> 0 then currentStepIndex st else currentStepIndex st - 1)\<rparr>"
  by (simp add: goToPreviousStep_def)



lemma perform_GoToNextStep:
  "perform steps trigger GoToNextStep st =
     (if inRange steps st then goToNextStep steps trigger (currentStepIndex st) st
      else Inl TypeError)"
  by (simp add: perform_def useMultiStepForm_def inRange_def at_index_def)

lemma perform_GoToPreviousStep:
  "perform steps trigger GoToPreviousStep st =
     (if inRange steps st then Inr (goToPreviousStep st) else Inl TypeError)"
  by (simp add: perform_def useMultiStepForm_def inRange_def at_index_def)


lemma inRange_at_index:
  "inRange steps st \<Longrightarrow> at_index steps (currentStepIndex st) = Some (steps ! nat (currentStepIndex st))"
  by (simp add: inRange_def at_index_def)

lemma goToNextStep_triggerCalls:
  assumes "at_index steps c = Some step"
  shows "\<exists>st'. goToNextStep steps trigger c st = Inr st' \<and>
               triggerCalls st' = triggerCalls st @ [step_fields step]"
proof (cases "fst (trigger (step_fields step) (form st))")
  case True
  with assms show ?thesis by (simp add: goToNextStep_valid [where trigger = trigger and st = st])
next
  case False
  with assms show ?thesis by (simp add: goToNextStep_invalid [where trigger = trigger and st = st])
qed



lemma goToNextStep_inRange:
  assumes "inRange steps st" and "goToNextStep steps trigger c st = Inr st'"
  shows "inRange steps st'"
proof (cases "at_index steps c")
  case None
  with assms(2) show ?thesis by (simp add: goToNextStep_undefined)
next
  case (Some step)
  show ?thesis
  proof (cases "fst (trigger (step_fields step) (form st))")
    case True
    from assms goToNextStep_valid [where trigger = trigger and st = st, OF Some True] show ?thesis
      by (auto simp: inRange_def)
  next
    case False
    from assms goToNextStep_invalid [where trigger = trigger and st = st, OF Some False] show ?thesis
      by (auto simp: inRange_def)
  qed
qed

lemma goToPreviousStep_inRange:
  "inRange steps st \<Longrightarrow> inRange steps (goToPreviousStep st)"
  by (auto simp: inRange_def goToPreviousStep_eq)

lemma retreat_at_first:
  assumes "steps \<noteq> []" and "currentStepIndex st = 0"
  shows "run steps trigger (replicate k GoToPreviousStep) st = Inr st"
proof (induction k)
  case 0
  show ?case by simp
next
  case (Suc k)
  from assms have r: "inRange steps st" by (simp add: inRange_def)
  from assms(2) have "goToPreviousStep st = st" by (simp add: goToPreviousStep_eq)
  with r Suc show ?case by (simp add: perform_GoToPreviousStep)
qed

lemma advance_clamps:
  assumes "inRange steps st" and "allValidate steps trigger k st"
  shows "\<exists>st'. run steps trigger (replicate k GoToNextStep) st = Inr st' \<and>
               currentStepIndex st' = min (currentStepIndex st + int k) (int (length steps) - 1)"
  using assms
proof (induction k arbitrary: st)
  case 0
  then show ?case by (simp add: inRange_def)
next
  case (Suc k)
  let ?step = "steps ! nat (currentStepIndex st)"
  from Suc.prems(1) have a: "at_index steps (currentStepIndex st) = Some ?step"
    by (rule inRange_at_index)
  from Suc.prems(2) a have v: "fst (trigger (step_fields ?step) (form st))"
    by (simp add: validates_def)
  from Suc.prems(1) obtain st1 where
    p: "perform steps trigger GoToNextStep st = Inr st1"
    and i: "currentStepIndex st1 =
              (if currentStepIndex st \<ge> int (length steps) - 1 then currentStepIndex st
               else currentStepIndex st + 1)"
    by (simp add: perform_GoToNextStep goToNextStep_valid [where trigger = trigger and st = st, OF a v])
  from p Suc.prems(1) have r1: "inRange steps st1"
    by (auto simp: perform_GoToNextStep intro: goToNextStep_inRange)
  from p Suc.prems(2) have v1: "allValidate steps trigger k st1" by simp
  from Suc.IH [OF r1 v1] obtain st' where
    "run steps trigger (replicate k GoToNextStep) st1 = Inr st'"
    "currentStepIndex st' = min (currentStepIndex st1 + int k) (int (length steps) - 1)"
    by blast
  with p i Suc.prems(1) show ?case by (auto simp: inRange_def)
qed







section \<open>Going forward\<close>

text \<open>
  C1, as stated, fails. The callback returned by the evaluation at index 0 is called
  right after the setter was given 5, before the hook is evaluated again: the
  validation of the first step passes and the updater finds \<^verbatim>\<open>prevStep = 5\<close>, at or
  beyond the last index 2, and returns it as it is. The index stays 5; it is not
  \<open>min (5 + 1) 2 = 2\<close>.
\<close>

theorem goToNextStep_beyond_last_counterexample:
  "goToNextStep exampleSteps alwaysValid 0 (setCurrentStepIndex (Value 5) (initialState ())) =
     Inr \<lparr>currentStepIndex = 5, form = (), triggerCalls = [[''name'']]\<rparr> \<and>
   min (5 + 1) (int (length exampleSteps) - 1) \<noteq> 5"
  by (simp add: goToNextStep_def invokeTrigger_def at_index_def exampleSteps_def alwaysValid_def initialState_def)

text \<open>
  C1, amended: when \<^verbatim>\<open>goToNextStep\<close> is called and the validation of the step it
  reads succeeds, the call returns, and the new index is \<open>min (i + 1) (N - 1)\<close> for
  every previous index \<open>i\<close> with \<open>-2^53 \<le> i \<le> N - 1\<close>, negative ones included
  (and \<open>i < 2^53\<close>, as every array length is), where the addition is exact; for every
  \<open>i > N - 1\<close> the index is left as it is. Nothing is said of an index below
  \<open>-2^53\<close>.
\<close>

theorem goToNextStep_valid_index:
  assumes "at_index steps capturedIndex = Some step"
    and "fst (trigger (step_fields step) (form st))"
  shows "\<exists>st'. goToNextStep steps trigger capturedIndex st = Inr st' \<and>
               (- (2 ^ 53) \<le> currentStepIndex st \<and> currentStepIndex st < 2 ^ 53 \<and>
                currentStepIndex st \<le> int (length steps) - 1 \<longrightarrow>
                  currentStepIndex st' =
                    min (currentStepIndex st + 1) (int (length steps) - 1)) \<and>
               (int (length steps) - 1 < currentStepIndex st \<longrightarrow>
                  currentStepIndex st' = currentStepIndex st)"
  using assms by (simp add: goToNextStep_valid [where trigger = trigger and st = st])

theorem goToNextStep_valid_index_witness:
  "at_index exampleSteps 0 = Some (exampleSteps ! 0) \<and>
   fst (alwaysValid (step_fields (exampleSteps ! 0)) ()) \<and>
   - (2 ^ 53) \<le> (- 4 :: int) \<and> (- 4 :: int) < 2 ^ 53 \<and>
   (- 4 :: int) \<le> int (length exampleSteps) - 1 \<and>
   int (length exampleSteps) - 1 < 5 \<and>
   (\<exists>st'. goToNextStep exampleSteps alwaysValid 0
            \<lparr>currentStepIndex = - 4, form = (), triggerCalls = []\<rparr> = Inr st' \<and>
          currentStepIndex st' = - 3) \<and>
   (\<exists>st'. goToNextStep exampleSteps alwaysValid 0
            \<lparr>currentStepIndex = 5, form = (), triggerCalls = []\<rparr> = Inr st' \<and>
          currentStepIndex st' = 5)"
proof -
  let ?low = "\<lparr>currentStepIndex = - 4, form = (), triggerCalls = []\<rparr>"
  let ?high = "\<lparr>currentStepIndex = 5, form = (), triggerCalls = []\<rparr>"
  have a: "at_index exampleSteps 0 = Some (exampleSteps ! 0)"
    by (simp add: at_index_def exampleSteps_def)
  have v: "fst (alwaysValid (step_fields (exampleSteps ! 0)) ())"
    by (simp add: alwaysValid_def)
  have n: "int (length exampleSteps) - 1 = 2" by (simp add: exampleSteps_def)
  from goToNextStep_valid_index [of exampleSteps 0 "exampleSteps ! 0" alwaysValid ?low] a v n
  have l: "\<exists>st'. goToNextStep exampleSteps alwaysValid 0 ?low = Inr st' \<and>
                currentStepIndex st' = - 3"
    by simp
  from goToNextStep_valid_index [of exampleSteps 0 "exampleSteps ! 0" alwaysValid ?high] a v n
  have h: "\<exists>st'. goToNextStep exampleSteps alwaysValid 0 ?high = Inr st' \<and>
                currentStepIndex st' = 5"
    by simp
  from a v n l h show ?thesis by simp
qed

text \<open>
  C2: when \<^verbatim>\<open>goToNextStep\<close> is called and the validation of the step it reads
  fails, the call returns normally, with no error, and \<^verbatim>\<open>currentStepIndex\<close> is what
  it was.
\<close>

theorem goToNextStep_invalid_unchanged:
  assumes "at_index steps capturedIndex = Some step"
    and "\<not> fst (trigger (step_fields step) (form st))"
  shows "\<exists>st'. goToNextStep steps trigger capturedIndex st = Inr st' \<and>
               currentStepIndex st' = currentStepIndex st"
  using assms by (simp add: goToNextStep_invalid [where trigger = trigger and st = st])

theorem goToNextStep_invalid_unchanged_witness:
  "at_index exampleSteps 1 = Some (exampleSteps ! 1) \<and>
   \<not> fst (neverValid (step_fields (exampleSteps ! 1))
            (form (setCurrentStepIndex (Value 1) (initialState ())))) \<and>
   (\<exists>st'. goToNextStep exampleSteps neverValid 1
            (setCurrentStepIndex (Value 1) (initialState ())) = Inr st' \<and>
          currentStepIndex st' = 1)"
proof -
  let ?st = "setCurrentStepIndex (Value 1) (initialState ())"
  have a: "at_index exampleSteps 1 = Some (exampleSteps ! 1)"
    by (simp add: at_index_def exampleSteps_def)
  have v: "\<not> fst (neverValid (step_fields (exampleSteps ! 1)) (form ?st))"
    by (simp add: neverValid_def)
  from goToNextStep_invalid_unchanged [of exampleSteps 1 "exampleSteps ! 1" neverValid ?st, OF a v]
  have "\<exists>st'. goToNextStep exampleSteps neverValid 1 ?st = Inr st' \<and> currentStepIndex st' = 1"
    by (simp add: initialState_def)
  with a v show ?thesis by blast
qed

section \<open>The index invariant\<close>

text \<open>
  C3, as stated, fails: the setter is handed out unguarded, and with three steps
  \<^verbatim>\<open>setCurrentStepIndex(5)\<close> takes the initial state out of \<open>0 \<le> i < N\<close>.
\<close>

theorem setCurrentStepIndex_breaks_inRange_counterexample:
  "inRange exampleSteps (initialState ()) \<and>
   \<not> inRange exampleSteps (setCurrentStepIndex (Value 5) (initialState ()))"
  by (simp add: inRange_def exampleSteps_def initialState_def)

text \<open>
  C3, amended: \<open>0 \<le> currentStepIndex < length steps\<close> holds in the initial state of a
  non-empty step list and is preserved by \<^verbatim>\<open>goToNextStep\<close> and
  \<^verbatim>\<open>goToPreviousStep\<close>; \<^verbatim>\<open>setCurrentStepIndex(v)\<close> establishes it exactly when
  \<open>0 \<le> v < length steps\<close>.
\<close>

theorem inRange_preserved:
  "(steps \<noteq> [] \<longrightarrow> inRange steps (initialState f)) \<and>
   (inRange steps st \<longrightarrow> goToNextStep steps trigger capturedIndex st = Inr st' \<longrightarrow>
      inRange steps st') \<and>
   (inRange steps st \<longrightarrow> inRange steps (goToPreviousStep st)) \<and>
   (inRange steps (setCurrentStepIndex (Value v) st) \<longleftrightarrow> 0 \<le> v \<and> v < int (length steps))"
proof (intro conjI impI)
  assume "steps \<noteq> []"
  then show "inRange steps (initialState f)" by (simp add: inRange_def initialState_def)
next
  assume "inRange steps st" and "goToNextStep steps trigger capturedIndex st = Inr st'"
  then show "inRange steps st'" by (rule goToNextStep_inRange)
next
  assume "inRange steps st"
  then show "inRange steps (goToPreviousStep st)" by (rule goToPreviousStep_inRange)
next
  show "inRange steps (setCurrentStepIndex (Value v) st) \<longleftrightarrow> 0 \<le> v \<and> v < int (length steps)"
    by (simp add: inRange_def)
qed

theorem inRange_preserved_witness:
  "exampleSteps \<noteq> [] \<and> inRange exampleSteps (initialState ()) \<and>
   goToNextStep exampleSteps alwaysValid 0 (initialState ()) =
     Inr \<lparr>currentStepIndex = 1, form = (), triggerCalls = [[''name'']]\<rparr> \<and>
   inRange exampleSteps \<lparr>currentStepIndex = 1, form = (), triggerCalls = [[''name'']]\<rparr> \<and>
   inRange exampleSteps (goToPreviousStep (initialState ())) \<and>
   inRange exampleSteps (setCurrentStepIndex (Value 2) (initialState ()))"
proof -
  have n: "exampleSteps \<noteq> []" by (simp add: exampleSteps_def)
  have g: "goToNextStep exampleSteps alwaysValid 0 (initialState ()) =
     Inr \<lparr>currentStepIndex = 1, form = (), triggerCalls = [[''name'']]\<rparr>"
    by (simp add: goToNextStep_def invokeTrigger_def at_index_def exampleSteps_def alwaysValid_def initialState_def)
  have l: "(0::int) \<le> 2 \<and> 2 < int (length exampleSteps)" by (simp add: exampleSteps_def)
  from inRange_preserved [of exampleSteps "()" "initialState ()" alwaysValid 0
      "\<lparr>currentStepIndex = 1, form = (), triggerCalls = [[''name'']]\<rparr>" 2] n g l
  show ?thesis by simp
qed


section \<open>Validation is run once per call\<close>




section \<open>Going back\<close>

text \<open>
  C5, as stated, fails: from the index \<open>-2\<close>, which the setter accepts,
  \<^verbatim>\<open>goToPreviousStep\<close> finds \<^verbatim>\<open>prevStep <= 0\<close> and returns it as it is. The index
  stays \<open>-2\<close>; it is not \<open>max (-2 - 1) 0 = 0\<close>.
\<close>

theorem goToPreviousStep_below_first_counterexample:
  "currentStepIndex (goToPreviousStep (setCurrentStepIndex (Value (- 2)) (initialState ()))) = - 2 \<and>
   max (- 2 - 1) 0 \<noteq> (- 2 :: int)"
  by (simp add: goToPreviousStep_def initialState_def)

text \<open>
  C5, amended: \<^verbatim>\<open>goToPreviousStep\<close> sets \<^verbatim>\<open>currentStepIndex\<close> to
  \<open>max (i - 1) 0\<close> for every index \<open>i\<close> with \<open>0 \<le> i \<le> 2^53\<close>, where the
  subtraction is exact, and leaves every negative index as it is; it changes nothing
  else, so it never invokes the validation, and it is a total function of the state,
  so it never fails. Nothing is said of the index it gives above \<open>2^53\<close>.
\<close>

theorem goToPreviousStep_effect:
  "(0 \<le> currentStepIndex st \<and> currentStepIndex st \<le> 2 ^ 53 \<longrightarrow>
      currentStepIndex (goToPreviousStep st) = max (currentStepIndex st - 1) 0) \<and>
   (currentStepIndex st < 0 \<longrightarrow>
      currentStepIndex (goToPreviousStep st) = currentStepIndex st) \<and>
   form (goToPreviousStep st) = form st \<and>
   triggerCalls (goToPreviousStep st) = triggerCalls st"
  by (simp add: goToPreviousStep_def max_def)

theorem goToPreviousStep_effect_witness:
  "(0 :: int) \<le> 2 \<and> (2 :: int) \<le> 2 ^ 53 \<and> (- 2 :: int) < 0 \<and>
   currentStepIndex
     (goToPreviousStep \<lparr>currentStepIndex = 2, form = (), triggerCalls = [[''name'']]\<rparr>) = 1 \<and>
   currentStepIndex
     (goToPreviousStep \<lparr>currentStepIndex = - 2, form = (), triggerCalls = [[''name'']]\<rparr>) = - 2 \<and>
   triggerCalls
     (goToPreviousStep \<lparr>currentStepIndex = 2, form = (), triggerCalls = [[''name'']]\<rparr>) =
     [[''name'']]"
  using goToPreviousStep_effect
      [of "\<lparr>currentStepIndex = 2, form = (), triggerCalls = [[''name'']]\<rparr>"]
    goToPreviousStep_effect
      [of "\<lparr>currentStepIndex = - 2, form = (), triggerCalls = [[''name'']]\<rparr>"]
  by simp

section \<open>Round trip and clamping\<close>

text \<open>
  C6: from an interior index \<open>i\<close>, \<open>0 < i < N - 1\<close>, a call of \<^verbatim>\<open>goToNextStep\<close>
  whose validation succeeds followed by a call of \<^verbatim>\<open>goToPreviousStep\<close> returns, and
  \<^verbatim>\<open>currentStepIndex\<close> is \<open>i\<close> again.
\<close>

theorem advance_retreat_roundtrip:
  assumes "0 < currentStepIndex st" and "currentStepIndex st < int (length steps) - 1"
    and "validates steps trigger st"
  shows "\<exists>st'. run steps trigger [GoToNextStep, GoToPreviousStep] st = Inr st' \<and>
               currentStepIndex st' = currentStepIndex st"
proof -
  let ?step = "steps ! nat (currentStepIndex st)"
  from assms(1,2) have r: "inRange steps st" by (simp add: inRange_def)
  then have a: "at_index steps (currentStepIndex st) = Some ?step" by (rule inRange_at_index)
  with assms(3) have v: "fst (trigger (step_fields ?step) (form st))"
    by (simp add: validates_def)
  from r assms(1,2) show ?thesis
    by (simp add: perform_GoToNextStep perform_GoToPreviousStep goToPreviousStep_eq
        goToNextStep_valid [where trigger = trigger and st = st, OF a v] inRange_def)
qed

theorem advance_retreat_roundtrip_witness:
  "(0::int) < 1 \<and> (1::int) < int (length exampleSteps) - 1 \<and>
   validates exampleSteps alwaysValid (setCurrentStepIndex (Value 1) (initialState ())) \<and>
   (\<exists>st'. run exampleSteps alwaysValid [GoToNextStep, GoToPreviousStep]
            (setCurrentStepIndex (Value 1) (initialState ())) = Inr st' \<and>
          currentStepIndex st' = 1)"
proof -
  let ?st = "setCurrentStepIndex (Value 1) (initialState ())"
  have i: "currentStepIndex ?st = 1" by (simp add: initialState_def)
  have l: "(1::int) < int (length exampleSteps) - 1" by (simp add: exampleSteps_def)
  have v: "validates exampleSteps alwaysValid ?st"
    by (simp add: validates_def at_index_def exampleSteps_def alwaysValid_def initialState_def)
  from advance_retreat_roundtrip [of ?st exampleSteps alwaysValid] i l v
  show ?thesis by simp
qed

text \<open>
  C7: with at least one step and the index at 0, any number of
  \<^verbatim>\<open>goToPreviousStep\<close> calls leaves the state as it is; \<open>k\<close> calls of
  \<^verbatim>\<open>goToNextStep\<close> whose validations all succeed lead to the index
  \<open>min k (N - 1)\<close>, which is \<open>N - 1\<close> from \<open>k = N - 1\<close> on; and at the index
  \<open>N - 1\<close> a further successful \<^verbatim>\<open>goToNextStep\<close> returns normally with the index
  still \<open>N - 1\<close>.
\<close>

theorem clamping_idempotent:
  "(steps \<noteq> [] \<longrightarrow> currentStepIndex st = 0 \<longrightarrow>
      run steps trigger (replicate k GoToPreviousStep) st = Inr st) \<and>
   (steps \<noteq> [] \<longrightarrow> currentStepIndex st = 0 \<longrightarrow> allValidate steps trigger k st \<longrightarrow>
      (\<exists>st'. run steps trigger (replicate k GoToNextStep) st = Inr st' \<and>
             currentStepIndex st' = min (int k) (int (length steps) - 1))) \<and>
   (currentStepIndex stLast = int (length steps) - 1 \<longrightarrow> validates steps trigger stLast \<longrightarrow>
      (\<exists>st'. run steps trigger [GoToNextStep] stLast = Inr st' \<and>
             currentStepIndex st' = int (length steps) - 1))"
proof (intro conjI impI)
  assume "steps \<noteq> []" and "currentStepIndex st = 0"
  then show "run steps trigger (replicate k GoToPreviousStep) st = Inr st"
    by (rule retreat_at_first)
next
  assume n: "steps \<noteq> []" and z: "currentStepIndex st = 0"
    and v: "allValidate steps trigger k st"
  from n z have "inRange steps st" by (simp add: inRange_def)
  from advance_clamps [OF this v] z
  show "\<exists>st'. run steps trigger (replicate k GoToNextStep) st = Inr st' \<and>
             currentStepIndex st' = min (int k) (int (length steps) - 1)"
    by simp
next
  assume l: "currentStepIndex stLast = int (length steps) - 1"
    and v: "validates steps trigger stLast"
  let ?step = "steps ! nat (currentStepIndex stLast)"
  from v have r: "inRange steps stLast"
    by (simp add: validates_def inRange_def at_index_def split: if_splits)
  then have a: "at_index steps (currentStepIndex stLast) = Some ?step"
    by (rule inRange_at_index)
  with v have "fst (trigger (step_fields ?step) (form stLast))"
    by (simp add: validates_def)
  from goToNextStep_valid [where trigger = trigger and st = stLast, OF a this] r l
  show "\<exists>st'. run steps trigger [GoToNextStep] stLast = Inr st' \<and>
             currentStepIndex st' = int (length steps) - 1"
    by (simp add: perform_GoToNextStep)
qed

theorem clamping_idempotent_witness:
  "exampleSteps \<noteq> [] \<and> currentStepIndex (initialState ()) = 0 \<and>
   allValidate exampleSteps alwaysValid 5 (initialState ()) \<and>
   currentStepIndex (setCurrentStepIndex (Value 2) (initialState ())) =
     int (length exampleSteps) - 1 \<and>
   validates exampleSteps alwaysValid (setCurrentStepIndex (Value 2) (initialState ())) \<and>
   run exampleSteps alwaysValid (replicate 5 GoToPreviousStep) (initialState ()) =
     Inr (initialState ()) \<and>
   (\<exists>st'. run exampleSteps alwaysValid (replicate 5 GoToNextStep) (initialState ()) = Inr st' \<and>
          currentStepIndex st' = 2) \<and>
   (\<exists>st'. run exampleSteps alwaysValid [GoToNextStep]
            (setCurrentStepIndex (Value 2) (initialState ())) = Inr st' \<and>
          currentStepIndex st' = 2)"
proof -
  let ?last = "setCurrentStepIndex (Value 2) (initialState ())"
  have n: "exampleSteps \<noteq> []" by (simp add: exampleSteps_def)
  have z: "currentStepIndex (initialState ()) = 0" by (simp add: initialState_def)
  have v: "allValidate exampleSteps alwaysValid 5 (initialState ())"
    by (simp add: eval_nat_numeral validates_def perform_def useMultiStepForm_def
        goToNextStep_def invokeTrigger_def at_index_def exampleSteps_def alwaysValid_def initialState_def)
  have l: "currentStepIndex ?last = int (length exampleSteps) - 1"
    by (simp add: exampleSteps_def initialState_def)
  have w: "validates exampleSteps alwaysValid ?last"
    by (simp add: validates_def at_index_def exampleSteps_def alwaysValid_def initialState_def)
  have e: "int (length exampleSteps) - 1 = 2" by (simp add: exampleSteps_def)
  from clamping_idempotent [of exampleSteps "initialState ()" alwaysValid 5 ?last] n z v l w
  show ?thesis unfolding e by simp
qed

section \<open>The derived flags\<close>

text \<open>
  C8: whenever the hook returns, \<^verbatim>\<open>isFirstStep\<close> is \<open>currentStepIndex = 0\<close> and
  \<^verbatim>\<open>isLastStep\<close> is \<open>currentStepIndex = N - 1\<close>, computed from the state of that
  evaluation. The source compares with \<^verbatim>\<open><=\<close> and \<^verbatim>\<open>>=\<close>, after the read of
  \<^verbatim>\<open>steps[currentStepIndex].component\<close>: for an index outside \<open>0 .. N - 1\<close>, as the
  setter can store, that read throws and no flag is returned, and inside the range
  the comparisons are the equalities.
\<close>

theorem flags_are_equalities:
  "(case useMultiStepForm steps st of
      Inl e \<Rightarrow> \<not> inRange steps st
    | Inr r \<Rightarrow>
        inRange steps st \<and>
        isFirstStep r = (currentStepIndex st = 0) \<and>
        isLastStep r = (currentStepIndex st = int (length steps) - 1))"
  by (auto simp: useMultiStepForm_def inRange_def at_index_def)

section \<open>Frame\<close>

text \<open>
  C9: \<^verbatim>\<open>goToPreviousStep\<close> and \<^verbatim>\<open>setCurrentStepIndex\<close> leave the engine's state and
  the trace of \<^verbatim>\<open>trigger\<close> calls as they are; with three steps and the index at 1,
  \<^verbatim>\<open>setCurrentStepIndex(2)\<close> gives the index 2 and no call of \<^verbatim>\<open>trigger\<close>.
\<close>

theorem retreat_and_override_frame:
  "form (goToPreviousStep st) = form st \<and>
   triggerCalls (goToPreviousStep st) = triggerCalls st \<and>
   form (setCurrentStepIndex a st) = form st \<and>
   triggerCalls (setCurrentStepIndex a st) = triggerCalls st \<and>
   run exampleSteps trigger [SetCurrentStepIndex 2]
     \<lparr>currentStepIndex = 1, form = f, triggerCalls = cs\<rparr> =
     Inr \<lparr>currentStepIndex = 2, form = f, triggerCalls = cs\<rparr>"
  by (cases a) (simp_all add: goToPreviousStep_def perform_def useMultiStepForm_def
      at_index_def exampleSteps_def)

section \<open>The unchecked step lookup\<close>

text \<open>
  C10: the hook reads \<^verbatim>\<open>steps[currentStepIndex]\<close> with no check of its own. For an
  index \<open>i\<close> inside \<open>0 .. N - 1\<close> the read yields the step, the hook returns its
  component and \<^verbatim>\<open>goToNextStep\<close> returns; for an index \<open>j\<close> outside, and for every
  index when the list is empty, the read yields nothing (\<open>None\<close>), and the only error
  is the \<^verbatim>\<open>TypeError\<close> of the property read that follows, in the hook's body and in
  \<^verbatim>\<open>goToNextStep\<close> alike.
\<close>

theorem step_lookup_unchecked:
  "(0 \<le> i \<and> i < int (length steps) \<longrightarrow>
      at_index steps i = Some (steps ! nat i) \<and>
      (\<exists>r. useMultiStepForm steps (st\<lparr>currentStepIndex := i\<rparr>) = Inr r \<and>
           CurrentStep r = component (steps ! nat i)) \<and>
      (\<exists>st'. goToNextStep steps trigger i st = Inr st')) \<and>
   (\<not> (0 \<le> j \<and> j < int (length steps)) \<longrightarrow>
      at_index steps j = None \<and>
      useMultiStepForm steps (st\<lparr>currentStepIndex := j\<rparr>) = Inl TypeError \<and>
      goToNextStep steps trigger j st = Inl TypeError) \<and>
   at_index ([] :: 'c FormStep list) i = None \<and>
   useMultiStepForm ([] :: 'c FormStep list) st = Inl TypeError"
proof (intro conjI impI)
  assume "0 \<le> i \<and> i < int (length steps)"
  then show a: "at_index steps i = Some (steps ! nat i)"
    by (simp add: at_index_def)
  then show "\<exists>r. useMultiStepForm steps (st\<lparr>currentStepIndex := i\<rparr>) = Inr r \<and>
                CurrentStep r = component (steps ! nat i)"
    by (simp add: useMultiStepForm_def)
  from goToNextStep_triggerCalls [OF a, where trigger = trigger and st = st]
  show "\<exists>st'. goToNextStep steps trigger i st = Inr st'"
    by blast
next
  assume "\<not> (0 \<le> j \<and> j < int (length steps))"
  then show a: "at_index steps j = None"
    by (simp add: at_index_def)
  then show "useMultiStepForm steps (st\<lparr>currentStepIndex := j\<rparr>) = Inl TypeError"
    by (simp add: useMultiStepForm_def)
  from a show "goToNextStep steps trigger j st = Inl TypeError"
    by (rule goToNextStep_undefined)
next
  show "at_index ([] :: 'c FormStep list) i = None" by (simp add: at_index_def)
next
  show "useMultiStepForm ([] :: 'c FormStep list) st = Inl TypeError"
    by (simp add: useMultiStepForm_def at_index_def)
qed

theorem step_lookup_unchecked_witness:
  "(0 \<le> (1::int) \<and> 1 < int (length exampleSteps)) \<and>
   \<not> (0 \<le> (3::int) \<and> 3 < int (length exampleSteps)) \<and>
   at_index exampleSteps 1 = Some \<lparr>component = ''AgeStep'', step_fields = [''age'']\<rparr> \<and>
   at_index exampleSteps 3 = None \<and>
   useMultiStepForm exampleSteps (setCurrentStepIndex (Value 3) (initialState ())) =
     Inl TypeError \<and>
   goToNextStep exampleSteps alwaysValid 3 (initialState ()) = Inl TypeError"
proof -
  have a: "0 \<le> (1::int) \<and> 1 < int (length exampleSteps)" by (simp add: exampleSteps_def)
  have b: "\<not> (0 \<le> (3::int) \<and> 3 < int (length exampleSteps))" by (simp add: exampleSteps_def)
  have e: "exampleSteps ! nat 1 = \<lparr>component = ''AgeStep'', step_fields = [''age'']\<rparr>"
    by (simp add: exampleSteps_def)
  from step_lookup_unchecked [of 1 exampleSteps "initialState ()" alwaysValid 3] a b e
  show ?thesis by (auto simp: initialState_def)
qed

end
